theory Spec2Isabelle
  imports Complex_Main "HOL-Library.Sublist"
begin

section \<open>JavaScript strings\<close>

text \<open>
  A JavaScript string is a sequence of UTF-16 code units. The model keeps one
  \<^typ>\<open>char\<close> per code unit and therefore covers the code units below 256
  (Latin-1); \<open>San Jos\<close> followed by U+00E9 is the only text of the repository
  outside ASCII.
\<close>

definition is_space :: "char \<Rightarrow> bool" where
  \<comment> \<open>WhiteSpace and LineTerminator of ECMAScript below 256: TAB, LF, VT, FF, CR, SP, NBSP\<close>
  "is_space c = (c \<in> set [CHR 0x09, CHR 0x0A, CHR 0x0B, CHR 0x0C, CHR 0x0D, CHR 0x20, CHR 0xA0])"

definition trim :: "string \<Rightarrow> string" where
  \<comment> \<open>\<open>String.prototype.trim\<close>\<close>
  "trim s = rev (dropWhile is_space (rev (dropWhile is_space s)))"

definition lower_char :: "char \<Rightarrow> char" where
  "lower_char c =
     (let n = (of_char c :: nat)
      in if (65 \<le> n \<and> n \<le> 90) \<or> (192 \<le> n \<and> n \<le> 222 \<and> n \<noteq> 215)
         then char_of (n + 32) else c)"

definition toLowerCase :: "string \<Rightarrow> string" where
  "toLowerCase s = map lower_char s"

fun split :: "char \<Rightarrow> string \<Rightarrow> string list" where
  \<comment> \<open>\<open>s.split(sep)\<close> for a one-character separator: never the empty list\<close>
  "split sep [] = [[]]"
| "split sep (c # cs) =
     (if c = sep then [] # split sep cs
      else (case split sep cs of
              [] \<Rightarrow> [[c]]
            | w # ws \<Rightarrow> (c # w) # ws))"

definition pop :: "string list \<Rightarrow> string option" where
  \<comment> \<open>\<open>Array.prototype.pop\<close>, the value it returns: undefined on the empty array\<close>
  "pop xs = (case rev xs of [] \<Rightarrow> None | x # _ \<Rightarrow> Some x)"

fun str_includes :: "string \<Rightarrow> string \<Rightarrow> bool" where
  \<comment> \<open>\<open>hay.includes(needle)\<close> on strings: needle occurs as a contiguous run\<close>
  "str_includes [] needle = (needle = [])"
| "str_includes (c # cs) needle = (prefix needle (c # cs) \<or> str_includes cs needle)"

fun indexOf :: "'a list \<Rightarrow> 'a \<Rightarrow> int" where
  \<comment> \<open>\<open>s.indexOf(c)\<close> on a string with a one-character needle, and on an array
      with a primitive needle: \<open>-1\<close> when absent\<close>
  "indexOf [] c = -1"
| "indexOf (x # xs) c =
     (if x = c then 0 else (let i = indexOf xs c in if i < 0 then -1 else i + 1))"

definition slice :: "'a list \<Rightarrow> int \<Rightarrow> 'a list" where
  \<comment> \<open>\<open>s.slice(start)\<close> with \<open>start \<ge> 0\<close>, the only way the handler calls it\<close>
  "slice s start = drop (nat start) s"

section \<open>JavaScript values\<close>

text \<open>
  The values of JSON, and \<open>undefined\<close>. An object is the list of its own properties;
  a number is a rational, which is all the handler asks of it: whether it is zero.
\<close>

datatype jsval =
    JUndefined
  | JNull
  | JBool bool
  | JNum rat
  | JStr string
  | JArr "jsval list"
  | JObj "(string \<times> jsval) list"

datatype error = TypeError | SyntaxError | FetchError

fun truthy :: "jsval \<Rightarrow> bool" where
  "truthy JUndefined = False"
| "truthy JNull = False"
| "truthy (JBool b) = b"
| "truthy (JNum n) = (n \<noteq> 0)"
| "truthy (JStr s) = (s \<noteq> [])"
| "truthy (JArr xs) = True"
| "truthy (JObj kvs) = True"

fun nullish :: "jsval \<Rightarrow> bool" where
  "nullish JUndefined = True"
| "nullish JNull = True"
| "nullish v = False"

fun get_prop :: "jsval \<Rightarrow> string \<Rightarrow> error + jsval" where
  \<comment> \<open>\<open>v.name\<close> for the data names the handler reads (answers, destinations,
      relocationType, choices, message, content): none of them is a property of a
      prototype, so only an object's own keys can answer\<close>
  "get_prop JUndefined name = Inl TypeError"
| "get_prop JNull name = Inl TypeError"
| "get_prop (JObj kvs) name = Inr (case map_of kvs name of None \<Rightarrow> JUndefined | Some v \<Rightarrow> v)"
| "get_prop v name = Inr JUndefined"

definition opt_prop :: "jsval \<Rightarrow> string \<Rightarrow> jsval" where
  \<comment> \<open>\<open>v?.name\<close>\<close>
  "opt_prop v name =
     (if nullish v then JUndefined
      else (case get_prop v name of Inl e \<Rightarrow> JUndefined | Inr x \<Rightarrow> x))"

fun opt_index0 :: "jsval \<Rightarrow> jsval" where
  \<comment> \<open>\<open>v?.[0]\<close>\<close>
  "opt_index0 (JArr xs) = (case xs of [] \<Rightarrow> JUndefined | x # _ \<Rightarrow> x)"
| "opt_index0 (JStr s) = (case s of [] \<Rightarrow> JUndefined | c # _ \<Rightarrow> JStr [c])"
| "opt_index0 (JObj kvs) = (case map_of kvs ''0'' of None \<Rightarrow> JUndefined | Some v \<Rightarrow> v)"
| "opt_index0 v = JUndefined"


section \<open>The host of the handler\<close>

text \<open>
  What the handler calls and the repository does not define: the environment
  variables, the file system, \<open>JSON.parse\<close> (\<open>None\<close> when it throws),
  \<open>JSON.stringify\<close>, the string conversion \<open>JSON.parse\<close> applies to an argument that
  is not a string, and the upstream service behind \<open>fetch\<close>.
\<close>

record outbound =
  url :: string
  authorization :: string
  model :: string
  temperature :: rat
  system_msg :: string
  user_msg :: string
  max_tokens :: nat

datatype upstream =
    FetchThrows
  | Reply bool "string option"
    \<comment> \<open>\<open>resp.ok\<close> and the body text; \<open>None\<close> when reading the body throws\<close>

record host =
  process_env :: "string \<Rightarrow> string option"
  readFileSync :: "string \<Rightarrow> string option"
  JSON_parse :: "string \<Rightarrow> jsval option"
  JSON_stringify :: "jsval \<Rightarrow> string"
  ToString :: "jsval \<Rightarrow> string"
  fetch :: "outbound \<Rightarrow> upstream"

section \<open>Credential resolution\<close>

definition tryReadFileSync :: "host \<Rightarrow> string \<Rightarrow> string option" where
  "tryReadFileSync h path =
     (case readFileSync h path of
        None \<Rightarrow> None
      | Some content \<Rightarrow> (let s = trim content in if s \<noteq> [] then Some s else None))"

definition env_key :: "host \<Rightarrow> string \<Rightarrow> string option" where
  \<comment> \<open>\<open>if (process.env.X && process.env.X.trim()) return process.env.X.trim()\<close>\<close>
  "env_key h name =
     (case process_env h name of
        None \<Rightarrow> None
      | Some v \<Rightarrow> if v \<noteq> [] \<and> trim v \<noteq> [] then Some (trim v) else None)"

definition key_file :: "host \<Rightarrow> string option" where
  \<comment> \<open>\<open>if (process.env.OPEN_AI_KEY_FILE) { fromFile = tryReadFileSync(...) }\<close>\<close>
  "key_file h =
     (case process_env h ''OPEN_AI_KEY_FILE'' of
        None \<Rightarrow> None
      | Some path \<Rightarrow> if path \<noteq> [] then tryReadFileSync h path else None)"

definition getApiKey :: "host \<Rightarrow> string option" where
  "getApiKey h =
     (case env_key h ''OPENAI_API_KEY'' of
        Some k \<Rightarrow> Some k
      | None \<Rightarrow>
     (case env_key h ''OPEN_AI_KEY'' of
        Some k \<Rightarrow> Some k
      | None \<Rightarrow>
     (case key_file h of
        Some fromFile \<Rightarrow> Some fromFile
      | None \<Rightarrow>
     (case tryReadFileSync h ''./OPEN_AI_KEY'' of
        Some fromLocal \<Rightarrow> Some fromLocal
      | None \<Rightarrow>
     (case tryReadFileSync h ''/run/secrets/OPEN_AI_KEY'' of
        Some fromRunSecrets \<Rightarrow> Some fromRunSecrets
      | None \<Rightarrow> None)))))"

section \<open>The request handler\<close>



datatype payload = Text string | Json jsval

datatype log_entry = LogOpenAIError string | LogServerError error

datatype outcome =
    Hangs
  | Rejects error
  | Responds nat payload "log_entry list"




subsection \<open>The fallback without a credential\<close>

definition normalize_dests :: "jsval \<Rightarrow> jsval list" where
  \<comment> \<open>\<open>Array.isArray(d) ? d : (d ? [d] : [])\<close>\<close>
  "normalize_dests d =
     (case d of
        JArr xs \<Rightarrow> xs
      | _ \<Rightarrow> if truthy d then [d] else [])"

fun call_includes :: "jsval \<Rightarrow> string \<Rightarrow> error + bool" where
  \<comment> \<open>\<open>v.includes(needle)\<close>: a method of strings and of arrays, a TypeError elsewhere\<close>
  "call_includes (JStr s) needle = Inr (str_includes s needle)"
| "call_includes (JArr xs) needle = Inr (JStr needle \<in> set xs)"
| "call_includes v needle = Inl TypeError"

definition fallback_pick :: "jsval \<Rightarrow> error + string" where
  "fallback_pick answers =
     (case get_prop answers ''destinations'' of
        Inl e \<Rightarrow> Inl e
      | Inr d \<Rightarrow>
     (case get_prop answers ''relocationType'' of
        Inl e \<Rightarrow> Inl e
      | Inr r \<Rightarrow>
     (let dests = normalize_dests d;
          relocation = (if truthy r then r else JStr [])
      in if JStr ''panama'' \<in> set dests then Inr ''Panama''
         else if JStr ''belize'' \<in> set dests then Inr ''Belize''
         else if truthy relocation
         then (case call_includes relocation ''work'' of
                 Inl e \<Rightarrow> Inl e
               | Inr b \<Rightarrow> Inr (if b then ''Panama'' else ''Costa Rica''))
         else Inr ''Costa Rica'')))"

definition San_Jose :: string where
  "San_Jose = ''San Jos'' @ [CHR 0xE9]"

definition fallback_object :: "string \<Rightarrow> jsval" where
  "fallback_object pick =
     JObj [
       (''country'', JStr pick),
       (''score'', JNum 75),
       (''reasons'', JArr [
          JStr (''Based on your selections, '' @ pick @ '' aligns best with your priorities.''),
          JStr ''Good balance of lifestyle, services, and accessibility for your needs.'']),
       (''cities'', JArr [
          JObj [(''name'', JStr (if pick = ''Costa Rica'' then San_Jose
                                 else if pick = ''Panama'' then ''Panama City'' else ''Belize City'')),
                (''reason'', JStr ''Main hub with services'')],
          JObj [(''name'', JStr (if pick = ''Costa Rica'' then ''Guanacaste''
                                 else if pick = ''Panama'' then ''Boquete'' else ''San Pedro'')),
                (''reason'', JStr ''Popular expat/retirement spot'')],
          JObj [(''name'', JStr (if pick = ''Costa Rica'' then ''La Fortuna''
                                 else if pick = ''Panama'' then ''David'' else ''Caye Caulker'')),
                (''reason'', JStr ''Leisure and nature options'')]])]"

definition fallback :: "jsval \<Rightarrow> outcome" where
  "fallback answers =
     (case fallback_pick answers of
        Inl e \<Rightarrow> Rejects e
      | Inr pick \<Rightarrow> Responds 200 (Json (fallback_object pick)) [])"

subsection \<open>The relay with a credential\<close>

definition system_prompt :: string where
  "system_prompt =
     ''You are a concise relocation advisor expert for Costa Rica, Panama, and Belize.'' @ [CHR 0x0A] @
     ''Given a user's structured answers, pick the single best country (Costa Rica, Panama, or Belize),'' @ [CHR 0x0A] @
     ''explain why in 2-4 short bullet reasons, and list 3 cities with a brief reason for each.'' @ [CHR 0x0A] @
     ''Return a strict JSON object ONLY (no extra commentary).''"

definition user_prompt :: "host \<Rightarrow> jsval \<Rightarrow> string" where
  \<open>user_prompt h answers =
     ''User answers (JSON): '' @ JSON_stringify h answers @ ''.'' @ [CHR 0x0A] @
     ''Return JSON with keys:'' @ [CHR 0x0A] @
     ''- country: string (one of "Costa Rica","Panama","Belize")'' @ [CHR 0x0A] @
     ''- score: integer 0-100 (confidence)'' @ [CHR 0x0A] @
     ''- reasons: array of short strings (2-4)'' @ [CHR 0x0A] @
     ''- cities: array of { name: string, reason: string } (3 entries)'' @ [CHR 0x0A] @
     ''Keep outputs short and concise.''\<close>

definition completion_request :: "host \<Rightarrow> string \<Rightarrow> jsval \<Rightarrow> outbound" where
  "completion_request h key answers =
     \<lparr> url = ''https://api.openai.com/v1/chat/completions'',
       authorization = ''Bearer '' @ key,
       model = ''gpt-3.5-turbo'',
       temperature = 35 / 100,
       system_msg = system_prompt,
       user_msg = user_prompt h answers,
       max_tokens = 400 \<rparr>"

definition assistant_content :: "jsval \<Rightarrow> error + jsval" where
  \<comment> \<open>\<open>j.choices?.[0]?.message?.content || ''\<close>\<close>
  "assistant_content j =
     (case get_prop j ''choices'' of
        Inl e \<Rightarrow> Inl e
      | Inr choices \<Rightarrow>
          (let content = opt_prop (opt_prop (opt_index0 choices) ''message'') ''content''
           in Inr (if truthy content then content else JStr [])))"

definition raw_text :: "jsval \<Rightarrow> outcome" where
  \<comment> \<open>the inner \<open>catch\<close>: \<open>res.status(200).json({ text: assistant })\<close>\<close>
  "raw_text assistant = Responds 200 (Json (JObj [(''text'', assistant)])) []"

definition parse_or_raw :: "host \<Rightarrow> string \<Rightarrow> jsval \<Rightarrow> outcome" where
  "parse_or_raw h jsonText assistant =
     (case JSON_parse h jsonText of
        Some parsed \<Rightarrow> Responds 200 (Json parsed) []
      | None \<Rightarrow> raw_text assistant)"

fun parse_assistant :: "host \<Rightarrow> jsval \<Rightarrow> outcome" where
  \<comment> \<open>the inner \<open>try\<close>; \<open>indexOf\<close> and \<open>slice\<close> are methods of strings and arrays only\<close>
  "parse_assistant h (JStr s) =
     (let start = indexOf s (CHR ''{'');
          jsonText = (if start \<ge> 0 then slice s start else s)
      in parse_or_raw h jsonText (JStr s))"
| "parse_assistant h (JArr xs) =
     (let start = indexOf xs (JStr ''{'');
          jsonText = (if start \<ge> 0 then slice xs start else xs)
      in parse_or_raw h (ToString h (JArr jsonText)) (JArr xs))"
| "parse_assistant h v = raw_text v"

definition server_error :: "error \<Rightarrow> outcome" where
  \<comment> \<open>the outer \<open>catch\<close>\<close>
  "server_error err = Responds 500 (Text ''Server error'') [LogServerError err]"

definition relay :: "host \<Rightarrow> string \<Rightarrow> jsval \<Rightarrow> outcome" where
  "relay h key answers =
     (case fetch h (completion_request h key answers) of
        FetchThrows \<Rightarrow> server_error FetchError
      | Reply ok body_text \<Rightarrow>
          if \<not> ok then
            (case body_text of
               None \<Rightarrow> server_error FetchError
             | Some txt \<Rightarrow> Responds 502 (Text ''OpenAI API error'') [LogOpenAIError txt])
          else
            (case body_text of
               None \<Rightarrow> server_error FetchError
             | Some txt \<Rightarrow>
            (case JSON_parse h txt of
               None \<Rightarrow> server_error SyntaxError
             | Some j \<Rightarrow>
            (case assistant_content j of
               Inl e \<Rightarrow> server_error e
             | Inr assistant \<Rightarrow> parse_assistant h assistant))))"

subsection \<open>The handler\<close>

definition after_answers :: "host \<Rightarrow> jsval \<Rightarrow> outcome" where
  \<comment> \<open>from \<open>const OPENAI_KEY = await getApiKey()\<close> on\<close>
  "after_answers h answers =
     (case getApiKey h of
        None \<Rightarrow> fallback answers
      | Some key \<Rightarrow> if key = [] then fallback answers else relay h key answers)"


section \<open>The link highlighter\<close>

text \<open>
  The page is a store of elements, addressed by their position in \<open>nodes\<close>, so that
  one element reached through two selectors is one element. \<open>querySelectorAll\<close> is
  the browser's: for a selector, the addresses of the matching elements in document
  order. \<open>classList\<close> is the token list of the \<open>class\<close> attribute; the other
  attributes are in \<open>attrs\<close>; \<open>inner_tags\<close> are the tag names of the descendants,
  which is what \<open>a.querySelector('img')\<close> asks for. A run is the collection loop
  over the selectors followed by the apply loop over the collected map; the entry
  point \<open>__shimmerReapply\<close> of variant B is the same two loops again.
\<close>

record element =
  attrs :: "(string \<times> string) list"
  classList :: "string list"
  inner_tags :: "string list"

record page =
  pathname :: string
  data_destinations :: "string option"
  nodes :: "element list"
  querySelectorAll :: "string \<Rightarrow> nat list"

type_synonym anchor_map = "(string \<times> nat) list"

definition getAttribute :: "element \<Rightarrow> string \<Rightarrow> string option" where
  "getAttribute e name = map_of (attrs e) name"

fun set_attr :: "(string \<times> string) list \<Rightarrow> string \<Rightarrow> string \<Rightarrow> (string \<times> string) list" where
  "set_attr [] name v = [(name, v)]"
| "set_attr ((k, w) # kvs) name v =
     (if k = name then (k, v) # kvs else (k, w) # set_attr kvs name v)"

definition setAttribute :: "element \<Rightarrow> string \<Rightarrow> string \<Rightarrow> element" where
  "setAttribute e name v = e\<lparr>attrs := set_attr (attrs e) name v\<rparr>"

definition querySelector :: "element \<Rightarrow> string \<Rightarrow> bool" where
  \<comment> \<open>whether \<open>a.querySelector(tag)\<close> finds a descendant\<close>
  "querySelector e tag = (tag \<in> set (inner_tags e))"

definition classList_add :: "element \<Rightarrow> string \<Rightarrow> element" where
  "classList_add e tok =
     (if tok \<in> set (classList e) then e else e\<lparr>classList := classList e @ [tok]\<rparr>)"

definition classList_remove :: "element \<Rightarrow> string \<Rightarrow> element" where
  "classList_remove e tok = e\<lparr>classList := filter (\<lambda>t. t \<noteq> tok) (classList e)\<rparr>"

definition filename_of :: "string \<Rightarrow> string option" where
  \<comment> \<open>\<open>href.split('/').pop().toLowerCase()\<close>: \<open>None\<close> is the TypeError of calling
      \<open>toLowerCase\<close> on undefined\<close>
  "filename_of href = map_option toLowerCase (pop (split (CHR ''/'') href))"

definition current :: "page \<Rightarrow> string" where
  \<comment> \<open>\<open>(location.pathname.split('/').pop() || 'index.html').toLowerCase()\<close>\<close>
  "current p =
     toLowerCase (case pop (split (CHR ''/'') (pathname p)) of
                    None \<Rightarrow> ''index.html''
                  | Some seg \<Rightarrow> if seg \<noteq> [] then seg else ''index.html'')"

fun map_set :: "anchor_map \<Rightarrow> string \<Rightarrow> nat \<Rightarrow> anchor_map" where
  \<comment> \<open>\<open>Map.prototype.set\<close>: a present key keeps its place and takes the new value\<close>
  "map_set [] k v = [(k, v)]"
| "map_set ((k', v') # m) k v =
     (if k' = k then (k, v) # m else (k', v') # map_set m k v)"

definition map_has :: "anchor_map \<Rightarrow> string \<Rightarrow> bool" where
  "map_has m k = (map_of m k \<noteq> None)"

subsection \<open>Variant A: the fixed destination list\<close>

definition destinationPagesA :: "string list" where
  "destinationPagesA = [''costarica.html'', ''panama.html'', ''belize.html'']"

definition selectorsA :: "string list" where
  \<open>selectorsA =
     [''header .max-w-7xl nav a[href$=".html"]'',
      ''#siteMenu nav a[href$=".html"]'',
      ''header a[href$=".html"]:not(#siteMenu a[href$=".html"])'']\<close>

fun collectA :: "element list \<Rightarrow> nat list \<Rightarrow> anchor_map \<Rightarrow> anchor_map" where
  "collectA ns [] anchors = anchors"
| "collectA ns (a # rest) anchors =
     (if \<not> a < length ns then collectA ns rest anchors
      else if querySelector (ns ! a) ''img'' \<or> querySelector (ns ! a) ''svg''
      then collectA ns rest anchors
      else
        (case getAttribute (ns ! a) ''href'' of
           None \<Rightarrow> collectA ns rest anchors
         | Some href \<Rightarrow>
             if href = [] then collectA ns rest anchors
             else
               (case filename_of href of
                  None \<Rightarrow> collectA ns rest anchors
                | Some filename \<Rightarrow>
                    if filename = [] then collectA ns rest anchors
                    else collectA ns rest (map_set anchors filename a))))"

definition markA :: "string \<Rightarrow> string \<Rightarrow> element \<Rightarrow> element" where
  "markA cur filename anchor =
     (if filename \<in> set destinationPagesA \<and> filename \<noteq> cur
      then setAttribute (classList_add anchor ''shimmer'') ''tabindex''
             (case getAttribute (classList_add anchor ''shimmer'') ''tabindex'' of
                None \<Rightarrow> ''0''
              | Some t \<Rightarrow> if t \<noteq> [] then t else ''0'')
      else classList_remove anchor ''shimmer'')"

fun applyA :: "string \<Rightarrow> anchor_map \<Rightarrow> element list \<Rightarrow> element list" where
  "applyA cur [] ns = ns"
| "applyA cur ((filename, a) # anchors) ns =
     applyA cur anchors (ns[a := markA cur filename (ns ! a)])"

definition scanA :: "page \<Rightarrow> nat list" where
  "scanA p = concat (map (querySelectorAll p) selectorsA)"

definition anchorsA :: "page \<Rightarrow> anchor_map" where
  "anchorsA p = collectA (nodes p) (scanA p) []"

definition shimmerA :: "page \<Rightarrow> page" where
  "shimmerA p = p\<lparr>nodes := applyA (current p) (anchorsA p) (nodes p)\<rparr>"

subsection \<open>Variant B: the destination list of the page\<close>

definition destinationPagesB :: "page \<Rightarrow> string list" where
  "destinationPagesB p =
     (let raw = (case data_destinations p of
                   None \<Rightarrow> []
                 | Some r \<Rightarrow> r)
      in filter (\<lambda>s. s \<noteq> []) (map (\<lambda>s. toLowerCase (trim s)) (split (CHR '','') raw)))"

definition selectorsB :: "string list" where
  \<open>selectorsB =
     [''header nav a[href$=".html"]'',
      ''#siteMenu nav a[href$=".html"]'']\<close>

fun collectB :: "element list \<Rightarrow> nat list \<Rightarrow> anchor_map \<Rightarrow> error + anchor_map" where
  "collectB ns [] anchors = Inr anchors"
| "collectB ns (a # rest) anchors =
     (if \<not> a < length ns then collectB ns rest anchors
      else if querySelector (ns ! a) ''img'' \<or> querySelector (ns ! a) ''svg''
      then collectB ns rest anchors
      else
        (case getAttribute (ns ! a) ''href'' of
           None \<Rightarrow> collectB ns rest anchors
         | Some href \<Rightarrow>
             if href = [] then collectB ns rest anchors
             else
               (case filename_of href of
                  None \<Rightarrow> Inl TypeError
                | Some filename \<Rightarrow>
                    if filename = [] then collectB ns rest anchors
                    else collectB ns rest
                           (if \<not> map_has anchors filename then anchors @ [(filename, a)]
                            else anchors))))"

definition markB :: "string list \<Rightarrow> string \<Rightarrow> string \<Rightarrow> element \<Rightarrow> element" where
  "markB dests cur filename anchor =
     (if filename \<in> set dests \<and> filename \<noteq> cur
      then classList_add anchor ''shimmer''
      else classList_remove anchor ''shimmer'')"

fun applyB :: "string list \<Rightarrow> string \<Rightarrow> anchor_map \<Rightarrow> element list \<Rightarrow> element list" where
  "applyB dests cur [] ns = ns"
| "applyB dests cur ((filename, a) # anchors) ns =
     applyB dests cur anchors (ns[a := markB dests cur filename (ns ! a)])"

definition scanB :: "page \<Rightarrow> nat list" where
  "scanB p = concat (map (querySelectorAll p) selectorsB)"

definition anchorsB :: "page \<Rightarrow> error + anchor_map" where
  \<comment> \<open>the map at the end of the run; empty when the run returns before collecting\<close>
  "anchorsB p =
     (if destinationPagesB p = [] then Inr []
      else collectB (nodes p) (scanB p) [])"

definition shimmerB :: "page \<Rightarrow> error + page" where
  "shimmerB p =
     (case anchorsB p of
        Inl e \<Rightarrow> Inl e
      | Inr anchors \<Rightarrow>
          Inr (p\<lparr>nodes := applyB (destinationPagesB p) (current p) anchors (nodes p)\<rparr>))"

section \<open>The specification's vocabulary\<close>

text \<open>
  The credential sources as the specification lists them: each source is a raw value
  that may be missing, and counts when its trimmed text is not empty.
\<close>

definition nonblank :: "string option \<Rightarrow> string option" where
  "nonblank v =
     (case v of
        None \<Rightarrow> None
      | Some s \<Rightarrow> if trim s = [] then None else Some (trim s))"

definition credential_sources :: "host \<Rightarrow> string option list" where
  "credential_sources h =
     [nonblank (process_env h ''OPENAI_API_KEY''),
      nonblank (process_env h ''OPEN_AI_KEY''),
      nonblank (case process_env h ''OPEN_AI_KEY_FILE'' of
                  None \<Rightarrow> None
                | Some path \<Rightarrow> readFileSync h path),
      nonblank (readFileSync h ''./OPEN_AI_KEY''),
      nonblank (readFileSync h ''/run/secrets/OPEN_AI_KEY'')]"

fun first_found :: "'a option list \<Rightarrow> 'a option" where
  "first_found [] = None"
| "first_found (None # xs) = first_found xs"
| "first_found (Some x # xs) = Some x"


section \<open>Sample hosts\<close>

text \<open>
  A host for running the model on concrete inputs. Its \<open>JSON.parse\<close> knows the one
  text the handler itself supplies, \<open>{}\<close>, and the texts of a finite table; it throws
  on everything else.
\<close>

definition sample_parse :: "(string \<times> jsval) list \<Rightarrow> string \<Rightarrow> jsval option" where
  "sample_parse table s = (if s = ''{}'' then Some (JObj []) else map_of table s)"

definition sample_host ::
  "(string \<Rightarrow> string option) \<Rightarrow> (string \<Rightarrow> string option) \<Rightarrow> (string \<times> jsval) list \<Rightarrow> upstream \<Rightarrow> host" where
  "sample_host env files table reply =
     \<lparr> process_env = env, readFileSync = files, JSON_parse = sample_parse table,
       JSON_stringify = (\<lambda>v. ''{}''), ToString = (\<lambda>v. []), fetch = (\<lambda>out. reply) \<rparr>"

definition sample_reply :: jsval where
  "sample_reply =
     JObj [(''choices'', JArr [JObj [(''message'',
        JObj [(''role'', JStr ''assistant''), (''content'', JStr ''Here you go: {}'')])]])]"


section \<open>The highlighter's vocabulary\<close>

text \<open>
  An anchor qualifies for recording when it is an element of the page without an
  \<open>img\<close> or \<open>svg\<close> descendant whose \<open>href\<close> is not empty and ends in a segment that
  is not empty; \<open>candidate\<close> is the normalized filename under which it qualifies,
  and \<open>candidates\<close> lists the qualifying anchors of a scan in scan order.
\<close>

definition candidate :: "element list \<Rightarrow> nat \<Rightarrow> string option" where
  "candidate ns a =
     (if a < length ns \<and> \<not> querySelector (ns ! a) ''img'' \<and> \<not> querySelector (ns ! a) ''svg''
      then (case getAttribute (ns ! a) ''href'' of
              None \<Rightarrow> None
            | Some href \<Rightarrow>
                (case filename_of href of
                   None \<Rightarrow> None
                 | Some filename \<Rightarrow> if href = [] \<or> filename = [] then None else Some filename))
      else None)"

definition candidates :: "element list \<Rightarrow> nat list \<Rightarrow> anchor_map" where
  "candidates ns scan = List.map_filter (\<lambda>a. map_option (\<lambda>f. (f, a)) (candidate ns a)) scan"

text \<open>
  The invariant of the anchor map during collection, and one step of the apply
  loop for an arbitrary marking function.
\<close>

definition anchors_ok :: "element list \<Rightarrow> anchor_map \<Rightarrow> bool" where
  "anchors_ok ns m \<longleftrightarrow> distinct (map fst m) \<and> (\<forall>(f, a) \<in> set m. candidate ns a = Some f)"

definition stamp :: "(string \<Rightarrow> element \<Rightarrow> element) \<Rightarrow> string \<times> nat \<Rightarrow> element list \<Rightarrow> element list" where
  "stamp g = (\<lambda>(f, a) ns. ns[a := g f (ns ! a)])"



section \<open>Sample pages\<close>

text \<open>
  A header with a logo link around an image and four text links, seen from
  \<open>Panama.html\<close>; and a header with two text links to the same page.
\<close>

definition sample_page :: page where
  \<open>sample_page =
     \<lparr> pathname = ''/site/Panama.html'',
       data_destinations = Some ''costarica.html, panama.html ,Belize.html'',
       nodes =
         [\<lparr>attrs = [(''href'', ''panama.html'')], classList = [''logo''], inner_tags = [''img'']\<rparr>,
          \<lparr>attrs = [(''href'', ''costarica.html'')], classList = [], inner_tags = []\<rparr>,
          \<lparr>attrs = [(''href'', ''/pages/Panama.html'')], classList = [''nav'', ''shimmer''], inner_tags = [''span'']\<rparr>,
          \<lparr>attrs = [(''href'', ''belize.html''), (''tabindex'', ''3'')], classList = [''nav''], inner_tags = []\<rparr>,
          \<lparr>attrs = [(''href'', ''about.html'')], classList = [''shimmer''], inner_tags = []\<rparr>],
       querySelectorAll =
         (\<lambda>sel. if sel = ''header .max-w-7xl nav a[href$=".html"]'' then [0, 1, 2, 3, 4]
                else if sel = ''header nav a[href$=".html"]'' then [0, 1, 2, 3, 4]
                else if sel = ''header a[href$=".html"]:not(#siteMenu a[href$=".html"])''
                then [0, 1, 2, 3, 4]
                else []) \<rparr>\<close>

definition dup_page :: page where
  \<open>dup_page =
     \<lparr> pathname = ''/index.html'',
       data_destinations = Some ''costarica.html,panama.html,belize.html'',
       nodes =
         [\<lparr>attrs = [(''href'', ''panama.html'')], classList = [''first''], inner_tags = []\<rparr>,
          \<lparr>attrs = [(''href'', ''panama.html'')], classList = [''second''], inner_tags = []\<rparr>],
       querySelectorAll =
         (\<lambda>sel. if sel = ''header .max-w-7xl nav a[href$=".html"]'' then [0]
                else if sel = ''header nav a[href$=".html"]'' then [0, 1]
                else if sel = ''header a[href$=".html"]:not(#siteMenu a[href$=".html"])'' then [0, 1]
                else []) \<rparr>\<close>

section \<open>Properties of strings\<close>

lemma str_includes_sublist: "str_includes s n \<longleftrightarrow> sublist n s"
  by (induction s) (auto simp: sublist_Cons_right)

lemma rstrip_prefix: "xs = rev (dropWhile P (rev xs)) @ rev (takeWhile P (rev xs))"
  by (metis rev_append rev_rev_ident takeWhile_dropWhile_id)

lemma dropWhile_rstrip:
  assumes "xs = [] \<or> \<not> P (hd xs)"
  shows "dropWhile P (rev (dropWhile P (rev xs))) = rev (dropWhile P (rev xs))"
  by (metis assms dropWhile_eq_self_iff hd_append2 rev.simps(1) rstrip_prefix)

lemma trim_idem: "trim (trim s) = trim s"
proof -
  let ?xs = "dropWhile is_space s"
  have "?xs = [] \<or> \<not> is_space (hd ?xs)"
    by (metis hd_dropWhile)
  then have "dropWhile is_space (rev (dropWhile is_space (rev ?xs))) = rev (dropWhile is_space (rev ?xs))"
    by (rule dropWhile_rstrip)
  then show ?thesis
    by (simp add: trim_def dropWhile_idem)
qed

lemma all_dropWhile: "(\<forall>x\<in>set (dropWhile P s). P x) \<longleftrightarrow> (\<forall>x\<in>set s. P x)"
proof
  assume a: "\<forall>x\<in>set (dropWhile P s). P x"
  have "dropWhile P s = []"
  proof (rule ccontr)
    assume n: "dropWhile P s \<noteq> []"
    then have "\<not> P (hd (dropWhile P s))" by (rule hd_dropWhile)
    moreover have "hd (dropWhile P s) \<in> set (dropWhile P s)" using n by simp
    ultimately show False using a by blast
  qed
  then show "\<forall>x\<in>set s. P x" by (simp add: dropWhile_eq_Nil_conv)
next
  assume "\<forall>x\<in>set s. P x"
  then show "\<forall>x\<in>set (dropWhile P s). P x" by (blast dest: set_dropWhileD)
qed

lemma trim_empty_iff: "trim s = [] \<longleftrightarrow> list_all is_space s"
  by (simp add: trim_def dropWhile_eq_Nil_conv list_all_iff all_dropWhile)

section \<open>Properties of the credential resolution\<close>

lemma nonblank_env_key: "env_key h name = nonblank (process_env h name)"
  by (auto simp: env_key_def nonblank_def trim_def split: option.splits)

lemma nonblank_tryRead: "tryReadFileSync h path = nonblank (readFileSync h path)"
  by (auto simp: tryReadFileSync_def nonblank_def Let_def split: option.splits)

lemma nonblank_key_file:
  assumes "readFileSync h [] = None"
  shows "key_file h = nonblank (case process_env h ''OPEN_AI_KEY_FILE'' of
                  None \<Rightarrow> None
                | Some path \<Rightarrow> readFileSync h path)"
  using assms by (auto simp: key_file_def nonblank_tryRead nonblank_def split: option.splits)

lemma nonblank_Some: "nonblank v = Some k \<Longrightarrow> k \<noteq> [] \<and> trim k = k"
  by (auto simp: nonblank_def trim_idem split: option.splits if_splits)

lemma getApiKey_chain:
  assumes "readFileSync h [] = None"
  shows "getApiKey h = first_found (credential_sources h)"
  by (simp add: getApiKey_def credential_sources_def nonblank_env_key nonblank_tryRead
        nonblank_key_file [OF assms] split: option.splits)

lemma getApiKey_trimmed: "getApiKey h = Some k \<Longrightarrow> k \<noteq> [] \<and> trim k = k"
  unfolding getApiKey_def nonblank_env_key nonblank_tryRead key_file_def
  by (auto split: option.splits if_splits dest: nonblank_Some)

text \<open>
  Claim C2. Credential resolution checks five sources in strict priority order and
  returns the first whose trimmed text is not empty, or nothing when all fail:
  the variable \<open>OPENAI_API_KEY\<close>, the variable \<open>OPEN_AI_KEY\<close>, the file named by
  \<open>OPEN_AI_KEY_FILE\<close>, the file \<open>./OPEN_AI_KEY\<close>, the file
  \<open>/run/secrets/OPEN_AI_KEY\<close>. The value returned is not empty and is trimmed; when
  \<open>OPENAI_API_KEY\<close> holds a key it wins whatever the other sources hold; a file
  that cannot be read, or that holds only white space, counts as not found. The
  only assumption on the host is that no file has the empty path.
\<close>

theorem getApiKey_priority:
  assumes "readFileSync h [] = None"
  shows "getApiKey h = first_found (credential_sources h) \<and>
         (\<forall>k. getApiKey h = Some k \<longrightarrow> k \<noteq> [] \<and> trim k = k) \<and>
         (\<forall>k. nonblank (process_env h ''OPENAI_API_KEY'') = Some k \<longrightarrow> getApiKey h = Some k) \<and>
         (\<forall>path. readFileSync h path = None \<or>
                  (\<exists>c. readFileSync h path = Some c \<and> list_all is_space c)
                  \<longrightarrow> tryReadFileSync h path = None)"
proof (intro conjI allI impI)
  show "getApiKey h = first_found (credential_sources h)"
    by (rule getApiKey_chain [OF assms])
next
  fix k assume "getApiKey h = Some k"
  then show "k \<noteq> []" "trim k = k" using getApiKey_trimmed by blast+
next
  fix k assume "nonblank (process_env h ''OPENAI_API_KEY'') = Some k"
  then show "getApiKey h = Some k"
    by (simp add: getApiKey_def nonblank_env_key)
next
  fix path
  assume "readFileSync h path = None \<or> (\<exists>c. readFileSync h path = Some c \<and> list_all is_space c)"
  then show "tryReadFileSync h path = None"
    by (auto simp: nonblank_tryRead nonblank_def trim_empty_iff)
qed


theorem getApiKey_priority_witness:
  "readFileSync (sample_host [''OPENAI_API_KEY'' \<mapsto> '' sk-a '', ''OPEN_AI_KEY'' \<mapsto> ''sk-b''] Map.empty [] FetchThrows) [] = None \<and>
   getApiKey (sample_host [''OPENAI_API_KEY'' \<mapsto> '' sk-a '', ''OPEN_AI_KEY'' \<mapsto> ''sk-b''] Map.empty [] FetchThrows) = Some ''sk-a'' \<and>
   readFileSync (sample_host [''OPEN_AI_KEY_FILE'' \<mapsto> ''/k''] [''/k'' \<mapsto> ''sk-file'' @ [CHR 0x0A]] [] FetchThrows) [] = None \<and>
   first_found (credential_sources (sample_host [''OPEN_AI_KEY_FILE'' \<mapsto> ''/k''] [''/k'' \<mapsto> ''sk-file'' @ [CHR 0x0A]] [] FetchThrows)) = Some ''sk-file'' \<and>
   getApiKey (sample_host [''OPEN_AI_KEY_FILE'' \<mapsto> ''/k''] [''/k'' \<mapsto> ''sk-file'' @ [CHR 0x0A]] [] FetchThrows) = Some ''sk-file''"
  using getApiKey_priority [of "sample_host [''OPENAI_API_KEY'' \<mapsto> '' sk-a '', ''OPEN_AI_KEY'' \<mapsto> ''sk-b''] Map.empty [] FetchThrows"]
        getApiKey_priority [of "sample_host [''OPEN_AI_KEY_FILE'' \<mapsto> ''/k''] [''/k'' \<mapsto> ''sk-file'' @ [CHR 0x0A]] [] FetchThrows"]
  by (simp add: sample_host_def credential_sources_def nonblank_def trim_def is_space_def)

section \<open>Properties of the fallback\<close>

lemma normalize_dests_simps:
  "normalize_dests (JArr xs) = xs"
  "\<not> truthy d \<Longrightarrow> normalize_dests d = []"
  by (cases d; simp add: normalize_dests_def)+

text \<open>
  Claim C1. Without a credential the country is picked by a strict override chain:
  \<open>Panama\<close> when the normalized destination list contains \<open>panama\<close>; else
  \<open>Belize\<close> when it contains \<open>belize\<close>; else \<open>Panama\<close> when the relocation type is
  a text that contains \<open>work\<close>; else \<open>Costa Rica\<close>. A destination list that holds
  both \<open>belize\<close> and \<open>panama\<close>, in any order, picks \<open>Panama\<close>.
\<close>

theorem fallback_pick_chain:
  assumes d: "get_prop answers ''destinations'' = Inr d"
      and r: "get_prop answers ''relocationType'' = Inr r"
  shows "(JStr ''panama'' \<in> set (normalize_dests d) \<longrightarrow> fallback_pick answers = Inr ''Panama'') \<and>
         (JStr ''panama'' \<notin> set (normalize_dests d) \<and> JStr ''belize'' \<in> set (normalize_dests d)
            \<longrightarrow> fallback_pick answers = Inr ''Belize'') \<and>
         (JStr ''panama'' \<notin> set (normalize_dests d) \<and> JStr ''belize'' \<notin> set (normalize_dests d) \<and>
          (\<exists>s. r = JStr s \<and> sublist ''work'' s)
            \<longrightarrow> fallback_pick answers = Inr ''Panama'') \<and>
         (JStr ''panama'' \<notin> set (normalize_dests d) \<and> JStr ''belize'' \<notin> set (normalize_dests d) \<and>
          (\<not> truthy r \<or> (\<exists>s. r = JStr s \<and> \<not> sublist ''work'' s))
            \<longrightarrow> fallback_pick answers = Inr ''Costa Rica'') \<and>
         (\<forall>xs. d = JArr xs \<and> JStr ''belize'' \<in> set xs \<and> JStr ''panama'' \<in> set xs
            \<longrightarrow> fallback_pick answers = Inr ''Panama'')"
proof (intro conjI impI allI)
  assume "JStr ''panama'' \<in> set (normalize_dests d)"
  then show "fallback_pick answers = Inr ''Panama''"
    by (simp add: fallback_pick_def d r)
next
  assume "JStr ''panama'' \<notin> set (normalize_dests d) \<and> JStr ''belize'' \<in> set (normalize_dests d)"
  then show "fallback_pick answers = Inr ''Belize''"
    by (simp add: fallback_pick_def d r)
next
  assume a: "JStr ''panama'' \<notin> set (normalize_dests d) \<and> JStr ''belize'' \<notin> set (normalize_dests d) \<and>
          (\<exists>s. r = JStr s \<and> sublist ''work'' s)"
  then obtain s where s: "r = JStr s" "sublist ''work'' s" by blast
  then have "s \<noteq> []" by auto
  with a s show "fallback_pick answers = Inr ''Panama''"
    by (simp add: fallback_pick_def d r str_includes_sublist)
next
  assume a: "JStr ''panama'' \<notin> set (normalize_dests d) \<and> JStr ''belize'' \<notin> set (normalize_dests d) \<and>
          (\<not> truthy r \<or> (\<exists>s. r = JStr s \<and> \<not> sublist ''work'' s))"
  then show "fallback_pick answers = Inr ''Costa Rica''"
    by (auto simp: fallback_pick_def d r str_includes_sublist)
next
  fix xs
  assume "d = JArr xs \<and> JStr ''belize'' \<in> set xs \<and> JStr ''panama'' \<in> set xs"
  then show "fallback_pick answers = Inr ''Panama''"
    by (simp add: fallback_pick_def d r normalize_dests_simps)
qed

theorem fallback_pick_chain_witness:
  "fallback_pick (JObj [(''destinations'', JArr [JStr ''belize'', JStr ''panama''])]) = Inr ''Panama'' \<and>
   fallback_pick (JObj [(''destinations'', JStr ''belize''), (''relocationType'', JStr ''work'')])
     = Inr ''Belize'' \<and>
   fallback_pick (JObj [(''relocationType'', JStr ''work visa'')]) = Inr ''Panama'' \<and>
   fallback_pick (JObj [(''relocationType'', JStr ''retire'')]) = Inr ''Costa Rica'' \<and>
   fallback_pick (JObj []) = Inr ''Costa Rica''"
proof -
  have w: "sublist ''work'' ''work visa''"
    using str_includes_sublist [of "''work visa''" "''work''"] by simp
  have n: "\<not> sublist ''work'' ''retire''"
    using str_includes_sublist [of "''retire''" "''work''"] by simp
  show ?thesis
    using fallback_pick_chain [of "JObj [(''destinations'', JArr [JStr ''belize'', JStr ''panama''])]"
            "JArr [JStr ''belize'', JStr ''panama'']" JUndefined]
          fallback_pick_chain [of "JObj [(''destinations'', JStr ''belize''), (''relocationType'', JStr ''work'')]"
            "JStr ''belize''" "JStr ''work''"]
          fallback_pick_chain [of "JObj [(''relocationType'', JStr ''work visa'')]"
            JUndefined "JStr ''work visa''"]
          fallback_pick_chain [of "JObj [(''relocationType'', JStr ''retire'')]"
            JUndefined "JStr ''retire''"]
          fallback_pick_chain [of "JObj []" JUndefined JUndefined]
          w n
    by (simp add: normalize_dests_def)
qed






text \<open>
  Claim C10. Without a credential, the handler answers 200 with the fallback object
  whenever \<open>answers.relocationType\<close> is absent, falsy or a string, whatever the type
  of \<open>answers.destinations\<close>. The hypothesis cannot be dropped: a number other than
  zero as relocation type makes \<open>relocation.includes\<close> throw a TypeError that
  escapes the handler, as soon as no destination has settled the pick before.
\<close>

theorem fallback_total_for_text_relocation:
  assumes "getApiKey h = None"
      and "get_prop answers ''destinations'' = Inr d"
      and "get_prop answers ''relocationType'' = Inr r"
  shows "(\<not> truthy r \<or> (\<exists>s. r = JStr s)
            \<longrightarrow> (\<exists>pick. after_answers h answers = Responds 200 (Json (fallback_object pick)) [])) \<and>
         ((\<exists>n. r = JNum n \<and> n \<noteq> 0) \<and>
          JStr ''panama'' \<notin> set (normalize_dests d) \<and> JStr ''belize'' \<notin> set (normalize_dests d)
            \<longrightarrow> after_answers h answers = Rejects TypeError)"
  using assms
  by (auto simp: after_answers_def fallback_def fallback_pick_def Let_def split: sum.splits)

theorem fallback_total_for_text_relocation_witness:
  "getApiKey (sample_host Map.empty Map.empty [] FetchThrows) = None \<and>
   after_answers (sample_host Map.empty Map.empty [] FetchThrows)
     (JObj [(''destinations'', JNum 7), (''relocationType'', JStr ''remote work'')])
     = Responds 200 (Json (fallback_object ''Panama'')) [] \<and>
   after_answers (sample_host Map.empty Map.empty [] FetchThrows)
     (JObj [(''relocationType'', JNum 5)]) = Rejects TypeError"
  using fallback_total_for_text_relocation [of "sample_host Map.empty Map.empty [] FetchThrows"
          "JObj [(''destinations'', JNum 7), (''relocationType'', JStr ''remote work'')]"
          "JNum 7" "JStr ''remote work''"]
        fallback_total_for_text_relocation [of "sample_host Map.empty Map.empty [] FetchThrows"
          "JObj [(''relocationType'', JNum 5)]" JUndefined "JNum 5"]
  by (simp add: sample_host_def getApiKey_def env_key_def key_file_def tryReadFileSync_def
        after_answers_def fallback_def fallback_pick_def normalize_dests_def)

section \<open>Properties of the relay\<close>

lemma indexOf_ge: "- 1 \<le> indexOf xs c"
  by (induction xs) (auto simp: Let_def)

lemma indexOf_nonneg_iff: "0 \<le> indexOf xs c \<longleftrightarrow> c \<in> set xs"
  by (induction xs) (auto simp: Let_def)

lemma slice_indexOf:
  "c \<in> set xs \<Longrightarrow>
   \<exists>pre rest. xs = pre @ c # rest \<and> c \<notin> set pre \<and> slice xs (indexOf xs c) = c # rest"
proof (induction xs)
  case Nil
  then show ?case by simp
next
  case (Cons x xs)
  show ?case
  proof (cases "x = c")
    case True
    then have "x # xs = [] @ c # xs \<and> c \<notin> set [] \<and> slice (x # xs) (indexOf (x # xs) c) = c # xs"
      by (simp add: slice_def)
    then show ?thesis by blast
  next
    case False
    with Cons.prems have "c \<in> set xs" by simp
    from Cons.IH [OF this] obtain pre rest where
      h: "xs = pre @ c # rest" "c \<notin> set pre" "slice xs (indexOf xs c) = c # rest"
      by blast
    have nn: "0 \<le> indexOf xs c" using \<open>c \<in> set xs\<close> by (simp add: indexOf_nonneg_iff)
    then have "slice (x # xs) (indexOf (x # xs) c) = slice xs (indexOf xs c)"
      using False by (simp add: slice_def Let_def nat_add_distrib)
    with h False have "x # xs = (x # pre) @ c # rest \<and> c \<notin> set (x # pre) \<and>
        slice (x # xs) (indexOf (x # xs) c) = c # rest"
      by auto
    then show ?thesis by blast
  qed
qed

lemma parse_assistant_string:
  "\<exists>t. ((CHR ''{'' \<notin> set s \<and> t = s) \<or>
        (\<exists>pre rest. s = pre @ CHR ''{'' # rest \<and> CHR ''{'' \<notin> set pre \<and> t = CHR ''{'' # rest)) \<and>
       parse_assistant h (JStr s) =
         (case JSON_parse h t of
            Some parsed \<Rightarrow> Responds 200 (Json parsed) []
          | None \<Rightarrow> Responds 200 (Json (JObj [(''text'', JStr s)])) [])"
proof (cases "CHR ''{'' \<in> set s")
  case True
  from slice_indexOf [OF this] obtain pre rest where
    h: "s = pre @ CHR ''{'' # rest" "CHR ''{'' \<notin> set pre"
       "slice s (indexOf s (CHR ''{'')) = CHR ''{'' # rest"
    by blast
  have "parse_assistant h (JStr s) = parse_or_raw h (CHR ''{'' # rest) (JStr s)"
    using True h(3) by (simp add: indexOf_nonneg_iff)
  with h show ?thesis
    unfolding parse_or_raw_def raw_text_def by blast
next
  case False
  then have "parse_assistant h (JStr s) = parse_or_raw h s (JStr s)"
    by (simp add: indexOf_nonneg_iff)
  with False show ?thesis
    unfolding parse_or_raw_def raw_text_def by blast
qed

lemma assistant_content_string:
  assumes "get_prop j ''choices'' = Inr choices"
      and "content = opt_prop (opt_prop (opt_index0 choices) ''message'') ''content''"
      and "(nullish content \<and> s = []) \<or> content = JStr s"
  shows "assistant_content j = Inr (JStr s)"
proof -
  have a: "assistant_content j = Inr (if truthy content then content else JStr [])"
    by (simp add: assistant_content_def assms(1,2) Let_def)
  from assms(3) show ?thesis
  proof
    assume "nullish content \<and> s = []"
    then show ?thesis using a by (cases content) simp_all
  next
    assume "content = JStr s"
    then show ?thesis using a by simp
  qed
qed

text \<open>
  Claim C4. With a credential and a successful upstream reply whose assistant
  content is the string \<open>s\<close> (the empty string when the content is absent at any
  level of the reply), the text handed to \<open>JSON.parse\<close> is \<open>s\<close> from its first
  \<open>{\<close> on, or all of \<open>s\<close> when it has none. When that parses, the response is 200
  with the parsed value as it is; when it does not, the response is 200 with
  \<open>{ text: s }\<close>.
\<close>

theorem upstream_content_parse:
  assumes "getApiKey h = Some key"
      and "fetch h (completion_request h key answers) = Reply True (Some txt)"
      and "JSON_parse h txt = Some j"
      and "get_prop j ''choices'' = Inr choices"
      and "content = opt_prop (opt_prop (opt_index0 choices) ''message'') ''content''"
      and "(nullish content \<and> s = []) \<or> content = JStr s"
  shows "\<exists>t. ((CHR ''{'' \<notin> set s \<and> t = s) \<or>
              (\<exists>pre rest. s = pre @ CHR ''{'' # rest \<and> CHR ''{'' \<notin> set pre \<and> t = CHR ''{'' # rest)) \<and>
             after_answers h answers =
               (case JSON_parse h t of
                  Some parsed \<Rightarrow> Responds 200 (Json parsed) []
                | None \<Rightarrow> Responds 200 (Json (JObj [(''text'', JStr s)])) [])"
proof -
  have k: "key \<noteq> []" using assms(1) getApiKey_trimmed by blast
  have c: "assistant_content j = Inr (JStr s)"
    by (rule assistant_content_string [OF assms(4-6)])
  have "after_answers h answers = parse_assistant h (JStr s)"
    by (simp add: after_answers_def relay_def assms(1-3) k c)
  with parse_assistant_string [of s h] show ?thesis by simp
qed

theorem upstream_content_parse_witness:
  "after_answers
     (sample_host [''OPENAI_API_KEY'' \<mapsto> ''sk-a''] Map.empty [(''reply'', sample_reply)]
        (Reply True (Some ''reply'')))
     (JObj []) = Responds 200 (Json (JObj [])) [] \<and>
   after_answers
     (sample_host [''OPENAI_API_KEY'' \<mapsto> ''sk-a''] Map.empty [(''reply'', JObj [(''choices'', JArr [])])]
        (Reply True (Some ''reply'')))
     (JObj []) = Responds 200 (Json (JObj [(''text'', JStr [])])) []"
  using upstream_content_parse [of
          "sample_host [''OPENAI_API_KEY'' \<mapsto> ''sk-a''] Map.empty [(''reply'', sample_reply)]
             (Reply True (Some ''reply''))"
          "''sk-a''" "JObj []" "''reply''" sample_reply
          "JArr [JObj [(''message'',
              JObj [(''role'', JStr ''assistant''), (''content'', JStr ''Here you go: {}'')])]]"
          "JStr ''Here you go: {}''" "''Here you go: {}''"]
        upstream_content_parse [of
          "sample_host [''OPENAI_API_KEY'' \<mapsto> ''sk-a''] Map.empty [(''reply'', JObj [(''choices'', JArr [])])]
             (Reply True (Some ''reply''))"
          "''sk-a''" "JObj []" "''reply''" "JObj [(''choices'', JArr [])]"
          "JArr []" JUndefined "[]"]
  by (simp add: sample_host_def sample_parse_def sample_reply_def getApiKey_def env_key_def
        trim_def is_space_def opt_prop_def after_answers_def relay_def assistant_content_def
        parse_or_raw_def raw_text_def slice_def)

text \<open>
  Claim C5. With a credential, an upstream reply that is not ok and whose body can
  be read gives 502 with the fixed text \<open>OpenAI API error\<close>: the body of the reply
  goes to the log only. An exception during the upstream call, from \<open>fetch\<close> itself
  or from reading the body, gives 500 with the fixed text \<open>Server error\<close>.
\<close>

theorem upstream_failure_status:
  assumes "getApiKey h = Some key"
  shows "(\<forall>txt. fetch h (completion_request h key answers) = Reply False (Some txt)
            \<longrightarrow> after_answers h answers =
                  Responds 502 (Text ''OpenAI API error'') [LogOpenAIError txt]) \<and>
         (fetch h (completion_request h key answers) = FetchThrows
            \<longrightarrow> after_answers h answers =
                  Responds 500 (Text ''Server error'') [LogServerError FetchError]) \<and>
         (\<forall>ok. fetch h (completion_request h key answers) = Reply ok None
            \<longrightarrow> after_answers h answers =
                  Responds 500 (Text ''Server error'') [LogServerError FetchError])"
proof -
  have k: "key \<noteq> []" using assms getApiKey_trimmed by blast
  show ?thesis
    by (simp add: after_answers_def relay_def server_error_def assms k)
qed

theorem upstream_failure_status_witness:
  "getApiKey (sample_host [''OPENAI_API_KEY'' \<mapsto> ''sk-a''] Map.empty []
                (Reply False (Some ''quota exceeded''))) = Some ''sk-a'' \<and>
   after_answers (sample_host [''OPENAI_API_KEY'' \<mapsto> ''sk-a''] Map.empty []
                (Reply False (Some ''quota exceeded''))) (JObj [])
     = Responds 502 (Text ''OpenAI API error'') [LogOpenAIError ''quota exceeded''] \<and>
   after_answers (sample_host [''OPENAI_API_KEY'' \<mapsto> ''sk-a''] Map.empty [] FetchThrows) (JObj [])
     = Responds 500 (Text ''Server error'') [LogServerError FetchError]"
  using upstream_failure_status [of
          "sample_host [''OPENAI_API_KEY'' \<mapsto> ''sk-a''] Map.empty [] (Reply False (Some ''quota exceeded''))"
          "''sk-a''" "JObj []"]
        upstream_failure_status [of
          "sample_host [''OPENAI_API_KEY'' \<mapsto> ''sk-a''] Map.empty [] FetchThrows"
          "''sk-a''" "JObj []"]
  by (simp add: sample_host_def getApiKey_def env_key_def trim_def is_space_def)

section \<open>Properties of the handler\<close>











section \<open>Properties of the highlighter\<close>

subsection \<open>Collecting the anchors\<close>

lemma split_not_Nil: "split sep s \<noteq> []"
  by (induction s) (auto split: list.splits)

lemma filename_of_Some: "\<exists>f. filename_of href = Some f"
  using split_not_Nil [of "CHR ''/''" href]
  by (cases "rev (split (CHR ''/'') href)") (auto simp: filename_of_def pop_def)

lemma collectA_step:
  "collectA ns (a # rest) m =
     collectA ns rest (case candidate ns a of None \<Rightarrow> m | Some f \<Rightarrow> map_set m f a)"
  by (simp add: candidate_def split: option.splits)

lemma filename_of_not_None [simp]: "filename_of href \<noteq> None"
  using filename_of_Some [of href] by auto

lemma collectB_step:
  "collectB ns (a # rest) m =
     collectB ns rest (case candidate ns a of None \<Rightarrow> m
                       | Some f \<Rightarrow> if map_has m f then m else m @ [(f, a)])"
  by (auto simp: candidate_def split: option.splits)

lemma map_set_fst:
  "map fst (map_set m k v) = (if k \<in> set (map fst m) then map fst m else map fst m @ [k])"
  by (induction m k v rule: map_set.induct) (auto simp: rev_image_eqI)

lemma map_set_subset: "set (map_set m k v) \<subseteq> insert (k, v) (set m)"
  by (induction m k v rule: map_set.induct) (auto split: if_splits)

lemma map_has_iff: "map_has m k \<longleftrightarrow> k \<in> set (map fst m)"
  by (simp add: map_has_def map_of_eq_None_iff)

lemma anchors_ok_Nil: "anchors_ok ns []"
  by (simp add: anchors_ok_def)

lemma anchors_ok_map_set:
  assumes "anchors_ok ns m" and "candidate ns a = Some f"
  shows "anchors_ok ns (map_set m f a)"
proof -
  have "distinct (map fst (map_set m f a))"
    using assms(1) by (simp add: anchors_ok_def map_set_fst)
  moreover have "\<forall>(g, b) \<in> set (map_set m f a). candidate ns b = Some g"
    using assms map_set_subset [of m f a] by (auto simp: anchors_ok_def)
  ultimately show ?thesis by (simp add: anchors_ok_def)
qed

lemma anchors_ok_append:
  assumes "anchors_ok ns m" and "candidate ns a = Some f" and "\<not> map_has m f"
  shows "anchors_ok ns (m @ [(f, a)])"
  using assms by (auto simp: anchors_ok_def map_has_iff)

lemma collectA_ok: "anchors_ok ns m \<Longrightarrow> anchors_ok ns (collectA ns scan m)"
proof (induction scan arbitrary: m)
  case Nil
  then show ?case by simp
next
  case (Cons a scan)
  show ?case
  proof (cases "candidate ns a")
    case None
    with Cons show ?thesis by (simp only: collectA_step option.case)
  next
    case (Some f)
    with Cons.prems have "anchors_ok ns (map_set m f a)" by (simp add: anchors_ok_map_set)
    from Cons.IH [OF this] Some show ?thesis by (simp only: collectA_step option.case)
  qed
qed

lemma collectB_ok:
  "anchors_ok ns m \<Longrightarrow> \<exists>m'. collectB ns scan m = Inr m' \<and> anchors_ok ns m'"
proof (induction scan arbitrary: m)
  case Nil
  then show ?case by simp
next
  case (Cons a scan)
  show ?case
  proof (cases "candidate ns a")
    case None
    with Cons show ?thesis by (simp only: collectB_step option.case)
  next
    case (Some f)
    with Cons.prems have "anchors_ok ns (if map_has m f then m else m @ [(f, a)])"
      by (simp add: anchors_ok_append)
    from Cons.IH [OF this] Some show ?thesis by (simp only: collectB_step option.case)
  qed
qed

lemma anchors_ok_distinct_snd: "anchors_ok ns m \<Longrightarrow> distinct (map snd m)"
proof (induction m)
  case Nil
  then show ?case by simp
next
  case (Cons x m)
  obtain f a where x: "x = (f, a)" by (cases x)
  from Cons.prems have ok: "anchors_ok ns m" by (auto simp: anchors_ok_def)
  have "a \<notin> snd ` set m"
  proof
    assume "a \<in> snd ` set m"
    then obtain g where g: "(g, a) \<in> set m" by auto
    with Cons.prems x have "candidate ns a = Some g" "candidate ns a = Some f"
      by (auto simp: anchors_ok_def)
    then have "g = f" by simp
    with g have "f \<in> fst ` set m" by force
    with Cons.prems x show False by (simp add: anchors_ok_def)
  qed
  with Cons.IH [OF ok] x show ?case by simp
qed

lemma candidate_Some:
  assumes "candidate ns a = Some f"
  shows "a < length ns \<and> \<not> querySelector (ns ! a) ''img'' \<and> \<not> querySelector (ns ! a) ''svg'' \<and>
         (\<exists>href. getAttribute (ns ! a) ''href'' = Some href \<and> filename_of href = Some f)"
  using assms by (auto simp: candidate_def split: if_splits option.splits)

subsection \<open>Applying the class\<close>

lemma applyA_fold: "applyA cur m ns = fold (stamp (markA cur)) m ns"
  by (induction m arbitrary: ns) (auto simp: stamp_def)

lemma applyB_fold: "applyB dests cur m ns = fold (stamp (markB dests cur)) m ns"
  by (induction m arbitrary: ns) (auto simp: stamp_def)


lemma stamp_other: "a \<notin> snd ` set m \<Longrightarrow> fold (stamp g) m ns ! a = ns ! a"
  by (induction m arbitrary: ns) (auto simp: stamp_def)

lemma stamp_recorded:
  "distinct (map snd m) \<Longrightarrow> (f, a) \<in> set m \<Longrightarrow> a < length ns \<Longrightarrow>
   fold (stamp g) m ns ! a = g f (ns ! a)"
proof (induction m arbitrary: ns)
  case Nil
  then show ?case by simp
next
  case (Cons x m)
  obtain f' a' where x: "x = (f', a')" by (cases x)
  show ?case
  proof (cases "(f, a) = x")
    case True
    with Cons.prems x have "a \<notin> snd ` set m" by auto
    then have "fold (stamp g) m (ns[a := g f (ns ! a)]) ! a = ns[a := g f (ns ! a)] ! a"
      by (rule stamp_other)
    with True x Cons.prems(3) show ?thesis by (simp add: stamp_def)
  next
    case False
    with Cons.prems have in_m: "(f, a) \<in> set m" by auto
    with Cons.prems(1) x have ne: "a' \<noteq> a" by force
    have "fold (stamp g) m (ns[a' := g f' (ns ! a')]) ! a = g f (ns[a' := g f' (ns ! a')] ! a)"
      using Cons.IH [of "ns[a' := g f' (ns ! a')]"] Cons.prems in_m by simp
    with ne x show ?thesis by (simp add: stamp_def)
  qed
qed

lemma markA_shimmer:
  "''shimmer'' \<in> set (classList (markA cur f e)) \<longleftrightarrow> f \<in> set destinationPagesA \<and> f \<noteq> cur"
  by (simp add: markA_def setAttribute_def classList_add_def classList_remove_def)

lemma markB_shimmer:
  "''shimmer'' \<in> set (classList (markB dests cur f e)) \<longleftrightarrow> f \<in> set dests \<and> f \<noteq> cur"
  by (simp add: markB_def classList_add_def classList_remove_def)


lemma recorded_anchor:
  assumes ok: "anchors_ok ns m" and mem: "(f, a) \<in> set m"
  shows "a < length ns \<and>
         (\<exists>href. getAttribute (ns ! a) ''href'' = Some href \<and> filename_of href = Some f) \<and>
         fold (stamp g) m ns ! a = g f (ns ! a)"
proof -
  from ok mem have c: "candidate ns a = Some f" by (auto simp: anchors_ok_def)
  from candidate_Some [OF c] have lt: "a < length ns"
    and h: "\<exists>href. getAttribute (ns ! a) ''href'' = Some href \<and> filename_of href = Some f"
    by blast+
  from stamp_recorded [OF anchors_ok_distinct_snd [OF ok] mem lt]
  have "fold (stamp g) m ns ! a = g f (ns ! a)" .
  with lt h show ?thesis by blast
qed

lemma logo_anchor:
  assumes ok: "anchors_ok ns m"
      and logo: "querySelector (ns ! a) ''img'' \<or> querySelector (ns ! a) ''svg''"
  shows "a \<notin> snd ` set m \<and> fold (stamp g) m ns ! a = ns ! a"
proof -
  have n: "a \<notin> snd ` set m"
  proof
    assume "a \<in> snd ` set m"
    then obtain f where "(f, a) \<in> set m" by auto
    with ok have "candidate ns a = Some f" by (auto simp: anchors_ok_def)
    from candidate_Some [OF this] logo show False by blast
  qed
  with stamp_other [OF n] show ?thesis by blast
qed

lemma anchorsA_ok: "anchors_ok (nodes p) (anchorsA p)"
  unfolding anchorsA_def by (rule collectA_ok [OF anchors_ok_Nil])

lemma anchorsB_ok: "\<exists>m. anchorsB p = Inr m \<and> anchors_ok (nodes p) m"
  unfolding anchorsB_def using collectB_ok [OF anchors_ok_Nil] anchors_ok_Nil by simp

lemma nodes_shimmerA: "nodes (shimmerA p) = fold (stamp (markA (current p))) (anchorsA p) (nodes p)"
  by (simp add: shimmerA_def applyA_fold)

lemma shimmerB_run:
  "anchorsB p = Inr m \<Longrightarrow>
   shimmerB p = Inr (p\<lparr>nodes := fold (stamp (markB (destinationPagesB p) (current p))) m (nodes p)\<rparr>)"
  by (simp add: shimmerB_def applyB_fold)

text \<open>
  Claim C7. In both variants every recorded anchor is an element of the page
  recorded under the normalized filename of its \<open>href\<close>, and after the run it
  carries the class \<open>shimmer\<close> exactly when that filename is a destination and is
  not the filename of the current page. An anchor with an \<open>img\<close> or \<open>svg\<close>
  descendant is never recorded and the run leaves it as it was. Variant B never
  throws.
\<close>

theorem shimmer_marks_other_destinations:
  "(\<forall>f a. (f, a) \<in> set (anchorsA p) \<longrightarrow>
      a < length (nodes p) \<and>
      (\<exists>href. getAttribute (nodes p ! a) ''href'' = Some href \<and> filename_of href = Some f) \<and>
      (''shimmer'' \<in> set (classList (nodes (shimmerA p) ! a))
         \<longleftrightarrow> f \<in> set destinationPagesA \<and> f \<noteq> current p)) \<and>
   (\<forall>a. a < length (nodes p) \<and>
        (querySelector (nodes p ! a) ''img'' \<or> querySelector (nodes p ! a) ''svg'') \<longrightarrow>
      a \<notin> snd ` set (anchorsA p) \<and> nodes (shimmerA p) ! a = nodes p ! a) \<and>
   (\<exists>m p'. anchorsB p = Inr m \<and> shimmerB p = Inr p' \<and>
      (\<forall>f a. (f, a) \<in> set m \<longrightarrow>
         a < length (nodes p) \<and>
         (\<exists>href. getAttribute (nodes p ! a) ''href'' = Some href \<and> filename_of href = Some f) \<and>
         (''shimmer'' \<in> set (classList (nodes p' ! a))
            \<longleftrightarrow> f \<in> set (destinationPagesB p) \<and> f \<noteq> current p)) \<and>
      (\<forall>a. a < length (nodes p) \<and>
           (querySelector (nodes p ! a) ''img'' \<or> querySelector (nodes p ! a) ''svg'') \<longrightarrow>
         a \<notin> snd ` set m \<and> nodes p' ! a = nodes p ! a))"
proof (intro conjI)
  show "\<forall>f a. (f, a) \<in> set (anchorsA p) \<longrightarrow>
      a < length (nodes p) \<and>
      (\<exists>href. getAttribute (nodes p ! a) ''href'' = Some href \<and> filename_of href = Some f) \<and>
      (''shimmer'' \<in> set (classList (nodes (shimmerA p) ! a))
         \<longleftrightarrow> f \<in> set destinationPagesA \<and> f \<noteq> current p)"
    using recorded_anchor [OF anchorsA_ok, of _ _ p "markA (current p)"]
    by (simp add: nodes_shimmerA markA_shimmer)
next
  show "\<forall>a. a < length (nodes p) \<and>
        (querySelector (nodes p ! a) ''img'' \<or> querySelector (nodes p ! a) ''svg'') \<longrightarrow>
      a \<notin> snd ` set (anchorsA p) \<and> nodes (shimmerA p) ! a = nodes p ! a"
    using logo_anchor [OF anchorsA_ok, of p _ "markA (current p)"]
    by (simp add: nodes_shimmerA)
next
  obtain m where m: "anchorsB p = Inr m" and ok: "anchors_ok (nodes p) m"
    using anchorsB_ok by blast
  let ?g = "markB (destinationPagesB p) (current p)"
  let ?p' = "p\<lparr>nodes := fold (stamp ?g) m (nodes p)\<rparr>"
  have run: "shimmerB p = Inr ?p'" by (rule shimmerB_run [OF m])
  have 1: "\<forall>f a. (f, a) \<in> set m \<longrightarrow>
         a < length (nodes p) \<and>
         (\<exists>href. getAttribute (nodes p ! a) ''href'' = Some href \<and> filename_of href = Some f) \<and>
         (''shimmer'' \<in> set (classList (nodes ?p' ! a))
            \<longleftrightarrow> f \<in> set (destinationPagesB p) \<and> f \<noteq> current p)"
    using recorded_anchor [OF ok, of _ _ ?g] by (simp add: markB_shimmer)
  have 2: "\<forall>a. a < length (nodes p) \<and>
           (querySelector (nodes p ! a) ''img'' \<or> querySelector (nodes p ! a) ''svg'') \<longrightarrow>
         a \<notin> snd ` set m \<and> nodes ?p' ! a = nodes p ! a"
    using logo_anchor [OF ok, of _ ?g] by simp
  from m run 1 2 show "\<exists>m p'. anchorsB p = Inr m \<and> shimmerB p = Inr p' \<and>
      (\<forall>f a. (f, a) \<in> set m \<longrightarrow>
         a < length (nodes p) \<and>
         (\<exists>href. getAttribute (nodes p ! a) ''href'' = Some href \<and> filename_of href = Some f) \<and>
         (''shimmer'' \<in> set (classList (nodes p' ! a))
            \<longleftrightarrow> f \<in> set (destinationPagesB p) \<and> f \<noteq> current p)) \<and>
      (\<forall>a. a < length (nodes p) \<and>
           (querySelector (nodes p ! a) ''img'' \<or> querySelector (nodes p ! a) ''svg'') \<longrightarrow>
         a \<notin> snd ` set m \<and> nodes p' ! a = nodes p ! a)"
    by blast
qed


theorem shimmer_marks_other_destinations_witness:
  "destinationPagesB sample_page = [''costarica.html'', ''panama.html'', ''belize.html''] \<and>
   current sample_page = ''panama.html'' \<and>
   ''shimmer'' \<in> set (classList (nodes (shimmerA sample_page) ! 1)) \<and>
   ''shimmer'' \<notin> set (classList (nodes (shimmerA sample_page) ! 2)) \<and>
   ''shimmer'' \<in> set (classList (nodes (shimmerA sample_page) ! 3)) \<and>
   nodes (shimmerA sample_page) ! 0 = nodes sample_page ! 0 \<and>
   map classList (nodes (shimmerA sample_page))
     = [[''logo''], [''shimmer''], [''nav''], [''nav'', ''shimmer''], []] \<and>
   map_sum id (\<lambda>p'. map classList (nodes p')) (shimmerB sample_page)
     = Inr [[''logo''], [''shimmer''], [''nav''], [''nav'', ''shimmer''], []]"
proof -
  have d: "destinationPagesB sample_page = [''costarica.html'', ''panama.html'', ''belize.html'']"
    by code_simp
  have c: "current sample_page = ''panama.html''"
    by code_simp
  have a: "anchorsA sample_page =
      [(''costarica.html'', 1), (''panama.html'', 2), (''belize.html'', 3), (''about.html'', 4)]"
    by code_simp
  have logo: "0 < length (nodes sample_page) \<and>
      (querySelector (nodes sample_page ! 0) ''img'' \<or> querySelector (nodes sample_page ! 0) ''svg'')"
    by (simp add: sample_page_def querySelector_def)
  note t = shimmer_marks_other_destinations [of sample_page]
  note rec = t [THEN conjunct1, rule_format]
  have 1: "''shimmer'' \<in> set (classList (nodes (shimmerA sample_page) ! 1))"
    using rec [of "''costarica.html''" 1] a c by (simp add: destinationPagesA_def)
  have 2: "''shimmer'' \<notin> set (classList (nodes (shimmerA sample_page) ! 2))"
    using rec [of "''panama.html''" 2] a c by (simp add: destinationPagesA_def)
  have 3: "''shimmer'' \<in> set (classList (nodes (shimmerA sample_page) ! 3))"
    using rec [of "''belize.html''" 3] a c by (simp add: destinationPagesA_def)
  have 0: "nodes (shimmerA sample_page) ! 0 = nodes sample_page ! 0"
    using t [THEN conjunct2, THEN conjunct1, rule_format, OF logo] by simp
  have ea: "map classList (nodes (shimmerA sample_page))
     = [[''logo''], [''shimmer''], [''nav''], [''nav'', ''shimmer''], []]"
    by code_simp
  have eb: "map_sum id (\<lambda>p'. map classList (nodes p')) (shimmerB sample_page)
     = Inr [[''logo''], [''shimmer''], [''nav''], [''nav'', ''shimmer''], []]"
    by code_simp
  from d c 1 2 3 0 ea eb show ?thesis by (intro conjI)
qed

subsection \<open>Duplicate filenames\<close>

lemma map_of_map_set: "map_of (map_set m k v) = (map_of m)(k \<mapsto> v)"
  by (induction m k v rule: map_set.induct) auto

lemma candidates_Cons:
  "candidates ns (a # scan) =
     (case candidate ns a of None \<Rightarrow> candidates ns scan | Some f \<Rightarrow> (f, a) # candidates ns scan)"
  by (simp add: candidates_def List.map_filter_simps split: option.splits)

lemma collectA_last:
  "map_of (collectA ns scan m) f =
     (case map_of (rev (candidates ns scan)) f of Some a \<Rightarrow> Some a | None \<Rightarrow> map_of m f)"
proof (induction scan arbitrary: m)
  case Nil
  then show ?case by (simp add: candidates_def List.map_filter_simps)
next
  case (Cons a scan)
  show ?case
  proof (cases "candidate ns a")
    case None
    then show ?thesis
      using Cons.IH [of m] by (simp only: collectA_step candidates_Cons option.case)
  next
    case (Some g)
    then show ?thesis
      using Cons.IH [of "map_set m g a"]
      by (simp only: collectA_step candidates_Cons option.case)
         (auto simp: map_of_map_set map_add_def split: option.splits)
  qed
qed

lemma collectB_first:
  "\<exists>m'. collectB ns scan m = Inr m' \<and>
     (\<forall>f. map_of m' f =
        (case map_of m f of Some a \<Rightarrow> Some a | None \<Rightarrow> map_of (candidates ns scan) f))"
proof (induction scan arbitrary: m)
  case Nil
  then show ?case by (simp add: candidates_def List.map_filter_simps split: option.splits)
next
  case (Cons a scan)
  show ?case
  proof (cases "candidate ns a")
    case None
    then show ?thesis
      using Cons.IH [of m] by (simp only: collectB_step candidates_Cons option.case)
  next
    case (Some g)
    let ?m1 = "if map_has m g then m else m @ [(g, a)]"
    from Cons.IH [of ?m1] obtain m' where r: "collectB ns scan ?m1 = Inr m'"
      and h: "\<And>f. map_of m' f =
        (case map_of ?m1 f of Some b \<Rightarrow> Some b | None \<Rightarrow> map_of (candidates ns scan) f)"
      by blast
    have step: "collectB ns (a # scan) m = Inr m'"
      using Some r by (simp only: collectB_step option.case)
    have "map_of m' f =
        (case map_of m f of Some b \<Rightarrow> Some b | None \<Rightarrow> map_of ((g, a) # candidates ns scan) f)" for f
      using h [of f] by (auto simp: map_has_def map_add_def split: option.splits if_splits)
    with step Some show ?thesis
      by (simp only: candidates_Cons option.case) blast
  qed
qed

lemma anchorsA_last_occurrence:
  "map_of (anchorsA p) f = map_of (rev (candidates (nodes p) (scanA p))) f"
  by (simp add: anchorsA_def collectA_last split: option.splits)

lemma anchorsB_first_occurrence:
  assumes "destinationPagesB p \<noteq> []"
  shows "\<exists>m. anchorsB p = Inr m \<and> (\<forall>f. map_of m f = map_of (candidates (nodes p) (scanB p)) f)"
  using assms collectB_first [of "nodes p" "scanB p" "[]"] by (simp add: anchorsB_def)

text \<open>
  Claim C8. When two qualifying anchors have the same filename, the anchor recorded
  for it should be the first one of the scan. Variant B does so
  (\<open>anchorsB_first_occurrence\<close>); variant A calls \<open>anchors.set\<close> without asking
  \<open>anchors.has\<close> and records the last one (\<open>anchorsA_last_occurrence\<close>). On a
  header with two links to \<open>panama.html\<close>, seen from \<open>index.html\<close>, variant A
  records and marks the second link, variant B the first.
\<close>

theorem variantA_records_last_duplicate:
  "candidates (nodes dup_page) (scanA dup_page) =
     [(''panama.html'', 0), (''panama.html'', 0), (''panama.html'', 1)] \<and>
   anchorsA dup_page = [(''panama.html'', 1)] \<and>
   map classList (nodes (shimmerA dup_page)) = [[''first''], [''second'', ''shimmer'']] \<and>
   anchorsB dup_page = Inr [(''panama.html'', 0)] \<and>
   map_sum id (\<lambda>p'. map classList (nodes p')) (shimmerB dup_page)
     = Inr [[''first'', ''shimmer''], [''second'']]"
  by code_simp


subsection \<open>What a run leaves unchanged\<close>













end
